theory Spec2Isabelle
  imports Main "HOL-Library.Sublist"
begin

section \<open>Python values\<close>

text \<open>
  The program handles the values that JSON decoding produces: \<open>None\<close>, booleans,
  integers, floats, strings, lists and dictionaries. A string is the byte sequence of its
  UTF-8 encoding. A dictionary is an association list in insertion order; \<^const>\<open>map_of\<close>
  reads it. The program never computes with a float, it only tests it for zero and passes
  it on, so a float read from a decimal numeral is kept as that numeral:
  \<open>Decimal m e\<close> stands for the double nearest to \<open>m * 10 ^ e\<close>.
\<close>

datatype pyfloat = Decimal int int | PosInf | NegInf | NaN

datatype pyval =
    PyNone
  | PyBool bool
  | PyInt int
  | PyFloat pyfloat
  | PyStr string
  | PyList "pyval list"
  | PyDict "(string \<times> pyval) list"

text \<open>Exceptions carry the text that \<open>str(e)\<close> gives.\<close>

datatype exn = AttributeError string | TypeError string | OtherError string


fun type_name :: "pyval \<Rightarrow> string" where
  "type_name PyNone = ''NoneType''"
| "type_name (PyBool b) = ''bool''"
| "type_name (PyInt i) = ''int''"
| "type_name (PyFloat f) = ''float''"
| "type_name (PyStr s) = ''str''"
| "type_name (PyList xs) = ''list''"
| "type_name (PyDict kvs) = ''dict''"

text \<open>
  A double is zero when the numeral it was read from is at most half the least positive
  double, \<open>2 ^ - 1075\<close>, in magnitude.
\<close>

fun float_nonzero :: "pyfloat \<Rightarrow> bool" where
  "float_nonzero (Decimal m e) =
     (if 0 \<le> e then m \<noteq> 0 else 10 ^ nat (- e) < \<bar>m\<bar> * 2 ^ 1075)"
| "float_nonzero PosInf = True"
| "float_nonzero NegInf = True"
| "float_nonzero NaN = True"

text \<open>Truth value testing, as \<open>not v\<close> and \<open>if v\<close> use it.\<close>

fun truthy :: "pyval \<Rightarrow> bool" where
  "truthy PyNone = False"
| "truthy (PyBool b) = b"
| "truthy (PyInt i) = (i \<noteq> 0)"
| "truthy (PyFloat f) = float_nonzero f"
| "truthy (PyStr s) = (s \<noteq> [])"
| "truthy (PyList xs) = (xs \<noteq> [])"
| "truthy (PyDict kvs) = (kvs \<noteq> [])"

definition quoted :: "string \<Rightarrow> string" where
  "quoted s = [CHR 0x27] @ s @ [CHR 0x27]"

text \<open>\<open>v.get(key, default)\<close>: only a dictionary has the method.\<close>

fun py_get :: "pyval \<Rightarrow> string \<Rightarrow> pyval \<Rightarrow> exn + pyval" where
  "py_get (PyDict kvs) key dflt =
     Inr (case map_of kvs key of None \<Rightarrow> dflt | Some v \<Rightarrow> v)"
| "py_get v key dflt =
     Inl (AttributeError
       (quoted (type_name v) @ '' object has no attribute '' @ quoted ''get''))"




text \<open>Sequencing of steps that may raise.\<close>

definition and_then :: "'e + 'a \<Rightarrow> ('a \<Rightarrow> 'e + 'b) \<Rightarrow> 'e + 'b" where
  "and_then m f = (case m of Inl e \<Rightarrow> Inl e | Inr x \<Rightarrow> f x)"

section \<open>String helpers\<close>

text \<open>
  \<open>str.strip()\<close> removes the white-space characters of Unicode from both ends. These
  are their UTF-8 encodings (U+0009 to U+000D, U+001C to U+0020, U+0085, U+00A0, U+1680,
  U+2000 to U+200A, U+2028, U+2029, U+202F, U+205F, U+3000).
\<close>

definition whitespace :: "string list" where
  "whitespace =
    [[CHR 0x09], [CHR 0x0A], [CHR 0x0B], [CHR 0x0C], [CHR 0x0D],
     [CHR 0x1C], [CHR 0x1D], [CHR 0x1E], [CHR 0x1F], [CHR 0x20],
     [CHR 0xC2, CHR 0x85], [CHR 0xC2, CHR 0xA0], [CHR 0xE1, CHR 0x9A, CHR 0x80],
     [CHR 0xE2, CHR 0x80, CHR 0x80], [CHR 0xE2, CHR 0x80, CHR 0x81],
     [CHR 0xE2, CHR 0x80, CHR 0x82], [CHR 0xE2, CHR 0x80, CHR 0x83],
     [CHR 0xE2, CHR 0x80, CHR 0x84], [CHR 0xE2, CHR 0x80, CHR 0x85],
     [CHR 0xE2, CHR 0x80, CHR 0x86], [CHR 0xE2, CHR 0x80, CHR 0x87],
     [CHR 0xE2, CHR 0x80, CHR 0x88], [CHR 0xE2, CHR 0x80, CHR 0x89],
     [CHR 0xE2, CHR 0x80, CHR 0x8A], [CHR 0xE2, CHR 0x80, CHR 0xA8],
     [CHR 0xE2, CHR 0x80, CHR 0xA9], [CHR 0xE2, CHR 0x80, CHR 0xAF],
     [CHR 0xE2, CHR 0x81, CHR 0x9F], [CHR 0xE3, CHR 0x80, CHR 0x80]]"

text \<open>The white-space character a text begins with, if it begins with one.\<close>

definition leading_ws :: "string list \<Rightarrow> string \<Rightarrow> string option" where
  "leading_ws ws t = List.find (\<lambda>w. w \<noteq> [] \<and> prefix w t) ws"

function strip_leading :: "string list \<Rightarrow> string \<Rightarrow> string" where
  "strip_leading ws t =
     (case leading_ws ws t of
        None \<Rightarrow> t
      | Some w \<Rightarrow> strip_leading ws (drop (length w) t))"
  by pat_completeness auto
termination
  by (relation "measure (\<lambda>(ws, t). length t)")
     (auto simp: leading_ws_def find_Some_iff prefix_def)

definition lstrip :: "string \<Rightarrow> string" where
  "lstrip t = strip_leading whitespace t"

definition rstrip :: "string \<Rightarrow> string" where
  "rstrip t = rev (strip_leading (map rev whitespace) (rev t))"

definition strip :: "string \<Rightarrow> string" where
  "strip t = rstrip (lstrip t)"


section \<open>The prompt builder\<close>

text \<open>
  \<open>create_lesson_prompt\<close> returns one formatted string literal. Its text is cut here
  at the three replacement fields. In the literal, a doubled backslash, an escaped double
  quote and a doubled brace stand for one backslash, one double quote and one brace.
\<close>

definition prompt_intro :: string where
  \<open>prompt_intro = concat
    [[CHR 0x0A],
     ''    You are an expert curriculum designer for a Grade 10 TLE (Cookery) teacher at St. Mary's Academy, a private Catholic school.'', [CHR 0x0A],
     ''    Your task is to generate 14 lesson plan components based on the user's provided Topic, Knowledge, and Skill.'', [CHR 0x0A],
     ''    '', [CHR 0x0A],
     ''    PROVIDED BY USER:'', [CHR 0x0A],
     ''    Topic: "'']\<close>

definition prompt_after_topic :: string where
  \<open>prompt_after_topic = concat
    [''"'', [CHR 0x0A],
     ''    Knowledge (PoC): "'']\<close>

definition prompt_after_knowledge :: string where
  \<open>prompt_after_knowledge = concat
    [''"'', [CHR 0x0A],
     ''    Skill (PoC): "'']\<close>

definition prompt_schema :: string where
  \<open>prompt_schema = concat
    [''"'', [CHR 0x0A],
     [CHR 0x0A],
     ''    IMPORTANT: Your response MUST be a single, valid JSON object. Do not add any text or formatting before or after the JSON.'', [CHR 0x0A],
     ''    You can use newlines ('', [CHR 0x5C], ''n) inside the JSON values (like for vocabulary).'', [CHR 0x0A],
     [CHR 0x0A],
     ''    Please fill in the values for the following 14 keys, following the instructions for each key:'', [CHR 0x0A],
     ''    {'', [CHR 0x0A],
     ''      "rvw": "(Review: One short 'How...' question that recalls the previous lesson topic based from the previous day topic.)",'', [CHR 0x0A],
     ''      "fcs": "(Focus: One concise or very extremely brief words that states the primary learning topic of this lesson.)",'', [CHR 0x0A],
     ''      "vcb": "(Vocabularies: Five bulleted technical or unfamiliar terms (each begins with '', [CHR 0x27, CHR 0xE2, CHR 0x80, CHR 0xA2], '' ') with one-line student-friendly definitions. Each bulleted word must be on its own line, e.g., '', [CHR 0x27, CHR 0xE2, CHR 0x80, CHR 0xA2], '' Term 1: ...'', [CHR 0x5C], ''n'', [CHR 0xE2, CHR 0x80, CHR 0xA2], '' Term 2: ...')",'', [CHR 0x0A],
     ''      "mtv": "(Motivation: A short attention-getting opener (title then 1-2 sentence description) that connects to students' experience. Example: 'Poultry Hunt '', [CHR 0xE2, CHR 0x80, CHR 0x93], '' Students look at pictures of different poultry types...')",'', [CHR 0x0A],
     ''      "apk": "(Activating Prior Knowledge: One 'How...' question that connects students' prior learning/experience to the present topic (not about the main topic itself).)",'', [CHR 0x0A],
     ''      "activities": "(Activities: A classroom-based activity. Format: '<b>Activities:</b> (Creative Title)'', [CHR 0x5C], ''nDirection: (Brief steps, resources, grouping, time cue, and expected product)')",'', [CHR 0x0A],
     ''      "boc": "(Broadening of concepts: Exactly one 'How...' question that connects the lesson to wider contexts or applications, like their lives.)",'', [CHR 0x0A],
     ''      '', [CHR 0x0A],
     ''      "values": "(Core/Related Values: Choose one core value (Faith / Excellence / Service) and one related value. Write this line exactly: <b>Core/Related Values:</b> <u>[Core] / [Related]</u> then immediately write one reflective question in this exact style: How does [related value] demonstrate [core value] in the context of [topic]? (Reference list: 1. Faith: Strong faith in God; Prophetic witness to Gospel values; Nationalism; Justice; Communion. 2. Excellence: Integrity; Competence; Resourcefulness; Discipline; Self-reliance. 3. Service: Stewardship; Humility; Charity; Courage; Preferential love for the poor))",'', [CHR 0x0A],
     ''      '', [CHR 0x0A],
     ''      "social": "(Social Orientation: Start with the social issue title (e.g., Food Waste Reduction, Public Health) as: <b>Social Orientation:</b> <u>[Issue]</u> then write one focused reflective question: How can learning [topic] contribute to [social issue outcome] in the community?)",'', [CHR 0x0A],
     ''      "discipline": "(Lesson Across Discipline: Present two subjects first (format: <b>Lesson Across Discipline:</b> <u>[Subject 1] and [Subject 2]</u>) and write the linking question: How do [Subject 1] principles in [topic] align with [Subject 2] skills and topic in this lesson?)",'', [CHR 0x0A],
     ''      "biblical": "(Biblical Integration: Start the line exactly with <b>Biblical Integration:</b> followed by the full Bible verse (book name, chapter, verse). Use this format: <b>Biblical Integration:</b> <u>Bible Verse - "The content of the bible verse"</u>)",'', [CHR 0x0A],
     ''      "eva": "(Evaluation: A short, pen-and-paper practical assessment task (e.g., Short quiz, essay, identification, classification) that measures the Knowledge.)",'', [CHR 0x0A],
     ''      "smr_act": "(Summary and Action: A single brief 'How...' question that summarizes the main point, AND a second 'How...' question asking students how they will apply the learning in daily life.)",'', [CHR 0x0A],
     ''      "pua": "(Purposive Assignment: A unique, non-repetitive take-home task that can be done at home. Describe expected output, length, medium, and due date placeholder.)"'', [CHR 0x0A],
     ''    }'', [CHR 0x0A],
     ''    '']\<close>

text \<open>
  A replacement field inserts a string as it is and any other value through \<open>str\<close>,
  which belongs to the language and is taken as \<open>str_of\<close>.
\<close>

definition format_field :: "(pyval \<Rightarrow> string) \<Rightarrow> pyval \<Rightarrow> string" where
  "format_field str_of v = (case v of PyStr s \<Rightarrow> s | _ \<Rightarrow> str_of v)"

definition create_lesson_prompt ::
  "(pyval \<Rightarrow> string) \<Rightarrow> pyval \<Rightarrow> pyval \<Rightarrow> pyval \<Rightarrow> string" where
  "create_lesson_prompt str_of topic knowledge skill =
     prompt_intro @ format_field str_of topic
       @ prompt_after_topic @ format_field str_of knowledge
       @ prompt_after_knowledge @ format_field str_of skill
       @ prompt_schema"

section \<open>The response parser\<close>

definition ai_error :: pyval where
  "ai_error = PyStr ''(AI Error)''"

text \<open>
  Lines 64 to 67 of \<open>parse_ai_response\<close>: the text that is handed to the decoder.
\<close>

definition strip_code_fence :: "string \<Rightarrow> string" where
  "strip_code_fence text =
     (let text1 = (if prefix ''```json'' (strip text) then drop 7 (strip text) else text)
      in if suffix ''```'' (strip text1)
         then take (length (strip text1) - 3) (strip text1)
         else text1)"

text \<open>
  \<open>json.loads\<close> is the standard library's; the parser takes it as \<open>loads\<close>, which
  gives the decoded value or, with \<open>Inl\<close>, the message of the exception it raised.
\<close>

definition parse_ai_response ::
  "(string \<Rightarrow> string + pyval) \<Rightarrow> string \<Rightarrow> pyval \<Rightarrow> pyval \<Rightarrow> exn + pyval" where
  "parse_ai_response loads text knowledge skill =
     (let data = (case loads (strip_code_fence text) of
                    Inr v \<Rightarrow> v
                  | Inl e \<Rightarrow> PyDict [(''error'', PyStr (''AI Response Error: '' @ e))])
      in
      and_then (py_get data ''rvw'' ai_error) (\<lambda>rvw.
      and_then (py_get data ''fcs'' ai_error) (\<lambda>fcs.
      and_then (py_get data ''vcb'' ai_error) (\<lambda>vcb.
      and_then (py_get data ''mtv'' ai_error) (\<lambda>mtv.
      and_then (py_get data ''apk'' ai_error) (\<lambda>apk.
      and_then (py_get data ''activities'' ai_error) (\<lambda>activities.
      and_then (py_get data ''boc'' ai_error) (\<lambda>boc.
      and_then (py_get data ''values'' ai_error) (\<lambda>vals.
      and_then (py_get data ''social'' ai_error) (\<lambda>social.
      and_then (py_get data ''discipline'' ai_error) (\<lambda>discipline.
      and_then (py_get data ''biblical'' ai_error) (\<lambda>biblical.
      and_then (py_get data ''eva'' ai_error) (\<lambda>eva.
      and_then (py_get data ''smr_act'' ai_error) (\<lambda>smr_act.
      and_then (py_get data ''pua'' ai_error) (\<lambda>pua.
        Inr (PyDict
          [(''rvw'', rvw), (''fcs'', fcs), (''vcb'', vcb), (''mtv'', mtv), (''apk'', apk),
           (''knowledge'', knowledge), (''skill'', skill),
           (''activities'', activities), (''boc'', boc), (''values'', vals),
           (''social'', social), (''discipline'', discipline), (''biblical'', biblical),
           (''eva'', eva), (''smr_act'', smr_act), (''pua'', pua)]))))))))))))))))"

text \<open>
  Both call sites pass both arguments, so the keyword defaults of the source never apply.
\<close>

definition create_empty_content :: "pyval \<Rightarrow> pyval \<Rightarrow> pyval" where
  "create_empty_content knowledge skill =
     PyDict
       [(''rvw'', PyStr ''''), (''fcs'', PyStr ''''), (''vcb'', PyStr ''''),
        (''mtv'', PyStr ''''), (''apk'', PyStr ''''),
        (''knowledge'', knowledge), (''skill'', skill), (''activities'', PyStr ''''),
        (''boc'', PyStr ''''), (''values'', PyStr ''''), (''social'', PyStr ''''),
        (''discipline'', PyStr ''''), (''biblical'', PyStr ''''),
        (''eva'', PyStr ''''), (''smr_act'', PyStr ''''), (''pua'', PyStr '''')]"

section \<open>The generative service and the orchestrator\<close>

text \<open>
  The collaborators that the route calls and this repository does not define:
  \<^item> \<open>loads\<close> is \<open>json.loads\<close>, as above;
  \<^item> \<open>generate sent prompt\<close> is \<open>model.generate_content(prompt).text\<close>: the text of
    the reply, or the exception that the call or the reading of \<open>.text\<close> raised. The
    reply may depend on \<open>sent\<close>, the prompts of the calls made before;
  \<^item> \<open>str_of\<close> is \<open>str\<close> on values other than strings.
\<close>

record collaborators =
  loads :: "string \<Rightarrow> string + pyval"
  generate :: "string list \<Rightarrow> string \<Rightarrow> exn + string"
  str_of :: "pyval \<Rightarrow> string"

text \<open>
  One round of the loop of \<open>generate_content\<close> (lines 123 to 145). \<open>sent\<close> is the
  list of the prompts handed to the service so far; the result is what the round appends
  to \<open>all_results\<close>, or the exception that leaves the loop.
\<close>

definition process_day ::
  "collaborators \<Rightarrow> string list \<Rightarrow> pyval \<Rightarrow> (exn + pyval) \<times> string list" where
  "process_day env sent day =
     (case py_get day ''topic'' PyNone of
        Inl e \<Rightarrow> (Inl e, sent)
      | Inr topic \<Rightarrow>
     (case py_get day ''knowledge'' PyNone of
        Inl e \<Rightarrow> (Inl e, sent)
      | Inr knowledge \<Rightarrow>
     (case py_get day ''skill'' PyNone of
        Inl e \<Rightarrow> (Inl e, sent)
      | Inr skill \<Rightarrow>
        if \<not> truthy topic \<or> \<not> truthy knowledge \<or> \<not> truthy skill
        then (Inr (create_empty_content knowledge skill), sent)
        else
          let full_prompt = create_lesson_prompt (str_of env) topic knowledge skill
          in (case generate env sent full_prompt of
                Inl e \<Rightarrow> (Inr (create_empty_content knowledge skill), sent @ [full_prompt])
              | Inr text \<Rightarrow>
                 (case parse_ai_response (loads env) text knowledge skill of
                    Inl e \<Rightarrow>
                      (Inr (create_empty_content knowledge skill), sent @ [full_prompt])
                  | Inr parsed_content \<Rightarrow> (Inr parsed_content, sent @ [full_prompt]))))))"

fun for_days ::
  "collaborators \<Rightarrow> string list \<Rightarrow> pyval list \<Rightarrow> pyval list
     \<Rightarrow> (exn + pyval list) \<times> string list" where
  "for_days env sent all_results [] = (Inr all_results, sent)"
| "for_days env sent all_results (day # rest) =
     (case process_day env sent day of
        (Inl e, sent') \<Rightarrow> (Inl e, sent')
      | (Inr r, sent') \<Rightarrow> for_days env sent' (all_results @ [r]) rest)"

record response =
  body :: pyval
  status :: nat



section \<open>A model of the JSON decoder\<close>

text \<open>
  The statements about \<open>parse_ai_response\<close> hold for every decoder. To evaluate the
  parser on a given text, \<open>json_loads\<close> models the standard decoder: white space,
  the literals, numbers, strings with their escapes, arrays, and objects, in which a
  repeated key keeps its place and takes the last value. Its messages leave out the
  position that the library appends. Two things are outside the model: an escape
  \<open>\uXXXX\<close> that names a surrogate is reported as an invalid escape, and the depth of
  nesting is not limited.
\<close>

definition code :: "char \<Rightarrow> nat" where
  "code c = of_char c"

definition json_ws :: "char \<Rightarrow> bool" where
  "json_ws c = (c = CHR 0x20 \<or> c = CHR 0x09 \<or> c = CHR 0x0A \<or> c = CHR 0x0D)"

definition skip_ws :: "string \<Rightarrow> string" where
  "skip_ws t = dropWhile json_ws t"

definition is_digit :: "char \<Rightarrow> bool" where
  "is_digit c = (48 \<le> code c \<and> code c \<le> 57)"

fun digits_value :: "nat \<Rightarrow> string \<Rightarrow> nat" where
  "digits_value acc [] = acc"
| "digits_value acc (c # cs) = digits_value (10 * acc + (code c - 48)) cs"

definition hex_value :: "char \<Rightarrow> nat option" where
  "hex_value c =
     (if is_digit c then Some (code c - 48)
      else if 65 \<le> code c \<and> code c \<le> 70 then Some (code c - 55)
      else if 97 \<le> code c \<and> code c \<le> 102 then Some (code c - 87)
      else None)"

fun hex4 :: "string \<Rightarrow> nat option" where
  "hex4 [a, b, c, d] =
     (case (hex_value a, hex_value b, hex_value c, hex_value d) of
        (Some x, Some y, Some z, Some w) \<Rightarrow> Some (((x * 16 + y) * 16 + z) * 16 + w)
      | _ \<Rightarrow> None)"
| "hex4 t = None"

definition utf8_encode :: "nat \<Rightarrow> string" where
  "utf8_encode cp =
     (if cp < 0x80 then [char_of cp]
      else if cp < 0x800 then [char_of (0xC0 + cp div 64), char_of (0x80 + cp mod 64)]
      else [char_of (0xE0 + cp div 4096), char_of (0x80 + (cp div 64) mod 64),
            char_of (0x80 + cp mod 64)])"

definition unicode_escape :: "string \<Rightarrow> string option" where
  "unicode_escape t =
     (case hex4 t of
        None \<Rightarrow> None
      | Some cp \<Rightarrow> if 0xD800 \<le> cp \<and> cp \<le> 0xDFFF then None else Some (utf8_encode cp))"

definition simple_escape :: "char \<Rightarrow> char option" where
  "simple_escape e =
     (if e = CHR 0x22 \<or> e = CHR 0x5C \<or> e = CHR ''/'' then Some e
      else if e = CHR ''b'' then Some (CHR 0x08)
      else if e = CHR ''f'' then Some (CHR 0x0C)
      else if e = CHR ''n'' then Some (CHR 0x0A)
      else if e = CHR ''r'' then Some (CHR 0x0D)
      else if e = CHR ''t'' then Some (CHR 0x09)
      else None)"

definition prepend :: "string \<Rightarrow> string + string \<times> string \<Rightarrow> string + string \<times> string" where
  "prepend bs r = (case r of Inl e \<Rightarrow> Inl e | Inr (s, rest) \<Rightarrow> Inr (bs @ s, rest))"

text \<open>The text after an opening double quote: the string's content and what follows it.\<close>

fun scanstring :: "string \<Rightarrow> string + string \<times> string" where
  "scanstring [] = Inl ''Unterminated string starting at''"
| "scanstring (c # cs) =
     (if c = CHR 0x22 then Inr ([], cs)
      else if c = CHR 0x5C then
        (case cs of
           [] \<Rightarrow> Inl ''Unterminated string starting at''
         | e # cs' \<Rightarrow>
             if e = CHR ''u'' then
               (case unicode_escape (take 4 cs') of
                  None \<Rightarrow> Inl (''Invalid '' @ [CHR 0x5C] @ ''uXXXX escape'')
                | Some bs \<Rightarrow> prepend bs (scanstring (drop 4 cs')))
             else
               (case simple_escape e of
                  None \<Rightarrow> Inl (''Invalid '' @ [CHR 0x5C] @ ''escape'')
                | Some b \<Rightarrow> prepend [b] (scanstring cs')))
      else if code c < 0x20 then Inl ''Invalid control character at''
      else prepend [c] (scanstring cs))"

text \<open>
  A number: an optional minus sign, then a zero or digits that do not begin with zero,
  then a fraction and an exponent if they are complete. With neither it is an integer.
\<close>

definition scan_exponent :: "string \<Rightarrow> (int \<times> string) option" where
  "scan_exponent t =
     (case t of
        [] \<Rightarrow> None
      | c # cs \<Rightarrow>
          if c = CHR ''e'' \<or> c = CHR ''E'' then
            (let negative = (cs \<noteq> [] \<and> hd cs = CHR ''-'');
                 signed = (cs \<noteq> [] \<and> (hd cs = CHR ''-'' \<or> hd cs = CHR ''+''));
                 ds = (if signed then tl cs else cs)
             in if takeWhile is_digit ds = [] then None
                else Some ((if negative then - 1 else 1)
                             * int (digits_value 0 (takeWhile is_digit ds)),
                           dropWhile is_digit ds))
          else None)"

definition scan_number :: "string \<Rightarrow> (pyval \<times> string) option" where
  "scan_number t =
     (let negative = (t \<noteq> [] \<and> hd t = CHR ''-'');
          t1 = (if negative then tl t else t);
          sign = (if negative then - 1 else 1 :: int)
      in if t1 = [] \<or> \<not> is_digit (hd t1) then None
         else
           let integer = (if hd t1 = CHR ''0'' then ''0'' else takeWhile is_digit t1);
               t2 = drop (length integer) t1;
               frac = (if t2 \<noteq> [] \<and> hd t2 = CHR ''.'' then takeWhile is_digit (tl t2) else []);
               t3 = (if frac = [] then t2 else drop (Suc (length frac)) t2)
           in (case scan_exponent t3 of
                 None \<Rightarrow>
                   if frac = [] then Some (PyInt (sign * int (digits_value 0 integer)), t3)
                   else Some (PyFloat (Decimal (sign * int (digits_value 0 (integer @ frac)))
                                               (- int (length frac))), t3)
               | Some (ex, t4) \<Rightarrow>
                   Some (PyFloat (Decimal (sign * int (digits_value 0 (integer @ frac)))
                                          (ex - int (length frac))), t4)))"

text \<open>Storing a key in a dictionary.\<close>

fun dict_set :: "string \<Rightarrow> pyval \<Rightarrow> (string \<times> pyval) list \<Rightarrow> (string \<times> pyval) list" where
  "dict_set k v [] = [(k, v)]"
| "dict_set k v (p # ps) = (if fst p = k then (k, v) # ps else p # dict_set k v ps)"

text \<open>
  The scanner. Every call takes one unit of \<open>fuel\<close>. There are at most two calls
  for a character read, and \<open>json_loads\<close> gives more than twice as many units as the
  text has characters, so that the scanner never runs out (\<open>json_loads_fuel\<close> below).
\<close>

fun scan_once :: "nat \<Rightarrow> string \<Rightarrow> string + pyval \<times> string"
and parse_array :: "nat \<Rightarrow> pyval list \<Rightarrow> string \<Rightarrow> string + pyval \<times> string"
and parse_object :: "nat \<Rightarrow> (string \<times> pyval) list \<Rightarrow> string \<Rightarrow> string + pyval \<times> string"
where
  "scan_once 0 t = Inl ''maximum recursion depth exceeded''"
| "scan_once (Suc fuel) t =
     (case t of
        [] \<Rightarrow> Inl ''Expecting value''
      | c # cs \<Rightarrow>
          if c = CHR 0x22 then
            (case scanstring cs of Inl e \<Rightarrow> Inl e | Inr (s, rest) \<Rightarrow> Inr (PyStr s, rest))
          else if c = CHR ''{'' then
            (if skip_ws cs \<noteq> [] \<and> hd (skip_ws cs) = CHR ''}''
             then Inr (PyDict [], tl (skip_ws cs))
             else parse_object fuel [] (skip_ws cs))
          else if c = CHR ''['' then
            (if skip_ws cs \<noteq> [] \<and> hd (skip_ws cs) = CHR '']''
             then Inr (PyList [], tl (skip_ws cs))
             else parse_array fuel [] (skip_ws cs))
          else if prefix ''null'' t then Inr (PyNone, drop 4 t)
          else if prefix ''true'' t then Inr (PyBool True, drop 4 t)
          else if prefix ''false'' t then Inr (PyBool False, drop 5 t)
          else if prefix ''NaN'' t then Inr (PyFloat NaN, drop 3 t)
          else if prefix ''Infinity'' t then Inr (PyFloat PosInf, drop 8 t)
          else if prefix ''-Infinity'' t then Inr (PyFloat NegInf, drop 9 t)
          else (case scan_number t of None \<Rightarrow> Inl ''Expecting value'' | Some r \<Rightarrow> Inr r))"
| "parse_array 0 vs t = Inl ''maximum recursion depth exceeded''"
| "parse_array (Suc fuel) vs t =
     (case scan_once fuel t of
        Inl e \<Rightarrow> Inl e
      | Inr (v, rest) \<Rightarrow>
          (case skip_ws rest of
             [] \<Rightarrow> Inl (''Expecting '' @ quoted '','' @ '' delimiter'')
           | c # cs \<Rightarrow>
               if c = CHR '']'' then Inr (PyList (vs @ [v]), cs)
               else if c = CHR '','' then parse_array fuel (vs @ [v]) (skip_ws cs)
               else Inl (''Expecting '' @ quoted '','' @ '' delimiter'')))"
| "parse_object 0 kvs t = Inl ''maximum recursion depth exceeded''"
| "parse_object (Suc fuel) kvs t =
     (case t of
        [] \<Rightarrow> Inl ''Expecting property name enclosed in double quotes''
      | q # t1 \<Rightarrow>
          if q \<noteq> CHR 0x22 then Inl ''Expecting property name enclosed in double quotes''
          else
            (case scanstring t1 of
               Inl e \<Rightarrow> Inl e
             | Inr (key, t2) \<Rightarrow>
                 if skip_ws t2 = [] \<or> hd (skip_ws t2) \<noteq> CHR '':''
                 then Inl (''Expecting '' @ quoted '':'' @ '' delimiter'')
                 else
                   (case scan_once fuel (skip_ws (tl (skip_ws t2))) of
                      Inl e \<Rightarrow> Inl e
                    | Inr (v, rest) \<Rightarrow>
                        (case skip_ws rest of
                           [] \<Rightarrow> Inl (''Expecting '' @ quoted '','' @ '' delimiter'')
                         | c # cs \<Rightarrow>
                             if c = CHR ''}'' then Inr (PyDict (dict_set key v kvs), cs)
                             else if c = CHR '','' then
                               parse_object fuel (dict_set key v kvs) (skip_ws cs)
                             else Inl (''Expecting '' @ quoted '','' @ '' delimiter'')))))"

definition json_loads :: "string \<Rightarrow> string + pyval" where
  "json_loads s =
     (if prefix [CHR 0xEF, CHR 0xBB, CHR 0xBF] s
      then Inl ''Unexpected UTF-8 BOM (decode using utf-8-sig)''
      else
        (case scan_once (Suc (2 * length s)) (skip_ws s) of
           Inl e \<Rightarrow> Inl e
         | Inr (v, rest) \<Rightarrow> if skip_ws rest = [] then Inr v else Inl ''Extra data''))"

section \<open>Vocabulary of the specification\<close>

text \<open>The 14 keys that the service fills, and the 16 keys of a record in its order.\<close>

definition ai_fields :: "string list" where
  "ai_fields =
     [''rvw'', ''fcs'', ''vcb'', ''mtv'', ''apk'', ''activities'', ''boc'', ''values'',
      ''social'', ''discipline'', ''biblical'', ''eva'', ''smr_act'', ''pua'']"

definition record_keys :: "string list" where
  "record_keys =
     [''rvw'', ''fcs'', ''vcb'', ''mtv'', ''apk'', ''knowledge'', ''skill'', ''activities'',
      ''boc'', ''values'', ''social'', ''discipline'', ''biblical'', ''eva'', ''smr_act'',
      ''pua'']"

text \<open>The keys of a dictionary, and the value it holds under a key.\<close>

fun keys_of :: "pyval \<Rightarrow> string list" where
  "keys_of (PyDict kvs) = map fst kvs"
| "keys_of v = []"

fun field :: "pyval \<Rightarrow> string \<Rightarrow> pyval option" where
  "field (PyDict kvs) k = map_of kvs k"
| "field v k = None"

text \<open>What \<open>d.get(k, dflt)\<close> gives for the dictionary with the items \<open>kvs\<close>.\<close>

definition get_or :: "pyval \<Rightarrow> (string \<times> pyval) list \<Rightarrow> string \<Rightarrow> pyval" where
  "get_or dflt kvs k = (case map_of kvs k of None \<Rightarrow> dflt | Some v \<Rightarrow> v)"



text \<open>
  A service and a decoder to run the route on: the first call is answered with an object
  in a code fence, the second with an array, and every later call fails. The entries it
  is run on hold strings, so \<open>str_of\<close> is never applied.
\<close>

definition sample_env :: collaborators where
  \<open>sample_env =
     \<lparr>loads = json_loads,
      generate = (\<lambda>sent prompt.
         if length sent = 0
         then Inr (''```json'' @ [CHR 0x0A] @ ''{"rvw":"Q?"}'' @ [CHR 0x0A] @ ''```'')
         else if length sent = 1 then Inr ''[]''
         else Inl (OtherError ''503 service unavailable'')),
      str_of = (\<lambda>v. [])\<rparr>\<close>

text \<open>
  The record that the parser builds from a dictionary with the items \<open>kvs\<close>: each of
  the 14 values is the one stored under its key, or the placeholder.
\<close>

definition parsed_record :: "(string \<times> pyval) list \<Rightarrow> pyval \<Rightarrow> pyval \<Rightarrow> pyval" where
  "parsed_record kvs knowledge skill =
     PyDict
       [(''rvw'', get_or ai_error kvs ''rvw''), (''fcs'', get_or ai_error kvs ''fcs''),
        (''vcb'', get_or ai_error kvs ''vcb''), (''mtv'', get_or ai_error kvs ''mtv''),
        (''apk'', get_or ai_error kvs ''apk''),
        (''knowledge'', knowledge), (''skill'', skill),
        (''activities'', get_or ai_error kvs ''activities''),
        (''boc'', get_or ai_error kvs ''boc''), (''values'', get_or ai_error kvs ''values''),
        (''social'', get_or ai_error kvs ''social''),
        (''discipline'', get_or ai_error kvs ''discipline''),
        (''biblical'', get_or ai_error kvs ''biblical''),
        (''eva'', get_or ai_error kvs ''eva''), (''smr_act'', get_or ai_error kvs ''smr_act''),
        (''pua'', get_or ai_error kvs ''pua'')]"


text \<open>A member of a day entry is absent or empty.\<close>

definition absent_or_empty :: "(string \<times> pyval) list \<Rightarrow> string \<Rightarrow> bool" where
  "absent_or_empty kvs key =
     (map_of kvs key = None \<or> map_of kvs key = Some PyNone \<or> map_of kvs key = Some (PyStr []))"

text \<open>
  A result of the scanner on the text \<open>t\<close> that did not run out of fuel and, when it
  is a value, left less of the text than it was given.
\<close>

definition within_fuel :: "string + pyval \<times> string \<Rightarrow> string \<Rightarrow> bool" where
  "within_fuel res t =
     (res \<noteq> Inl ''maximum recursion depth exceeded''
      \<and> (\<forall>v r. res = Inr (v, r) \<longrightarrow> length r < length t))"

section \<open>Properties of the parser\<close>

lemma py_get_dict: "py_get (PyDict kvs) k d = Inr (get_or d kvs k)"
  by (simp add: get_or_def)

lemma and_then_Inr: "and_then (Inr x) f = f x"
  by (simp add: and_then_def)


lemma parse_dict:
  assumes "decoder (strip_code_fence text) = Inr (PyDict kvs)"
  shows "parse_ai_response decoder text knowledge skill = Inr (parsed_record kvs knowledge skill)"
  using assms
  by (simp add: parse_ai_response_def py_get_dict and_then_Inr parsed_record_def
           del: py_get.simps)




lemma field_parsed_record:
  "k \<in> set ai_fields \<Longrightarrow>
     field (parsed_record kvs knowledge skill) k = Some (get_or ai_error kvs k)"
  by (auto simp add: parsed_record_def ai_fields_def)



section \<open>Properties of stripping\<close>

declare strip_leading.simps [simp del]





lemma strip_leading_Nil: "strip_leading ws [] = []"
proof -
  have "leading_ws ws [] = None"
    by (simp add: leading_ws_def find_None_iff)
  then show ?thesis by (simp add: strip_leading.simps [of ws])
qed





lemma lstrip_Nil: "lstrip [] = []"
  by (simp add: lstrip_def strip_leading_Nil)





section \<open>Properties of the orchestrator\<close>

lemma process_day_blank:
  assumes "\<not> truthy (get_or PyNone kvs ''topic'') \<or> \<not> truthy (get_or PyNone kvs ''knowledge'')
             \<or> \<not> truthy (get_or PyNone kvs ''skill'')"
  shows "process_day env sent (PyDict kvs)
           = (Inr (create_empty_content (get_or PyNone kvs ''knowledge'')
                                        (get_or PyNone kvs ''skill'')), sent)"
  using assms by (auto simp add: process_day_def py_get_dict simp del: py_get.simps)








lemma keys_create_empty_content: "keys_of (create_empty_content knowledge skill) = record_keys"
  by (simp add: create_empty_content_def record_keys_def)

lemma field_create_empty_content:
  "k \<in> set ai_fields \<Longrightarrow> field (create_empty_content knowledge skill) k = Some (PyStr [])"
  by (auto simp add: create_empty_content_def ai_fields_def)

lemma field_create_empty_content_passthrough:
  "field (create_empty_content knowledge skill) ''knowledge'' = Some knowledge"
  "field (create_empty_content knowledge skill) ''skill'' = Some skill"
  by (simp_all add: create_empty_content_def)

lemma absent_or_empty_not_truthy:
  "absent_or_empty kvs key \<Longrightarrow> \<not> truthy (get_or PyNone kvs key)"
  by (auto simp add: absent_or_empty_def get_or_def)


section \<open>The scanner does not run out of fuel\<close>

lemma length_skip_ws: "length (skip_ws t) \<le> length t"
  by (simp add: skip_ws_def length_dropWhile_le)

lemma prepend_Inr: "prepend bs r = Inr (s, rest) \<Longrightarrow> \<exists>s'. r = Inr (s', rest)"
  by (auto simp add: prepend_def split: sum.splits)

lemma scanstring_consumes: "scanstring t = Inr (s, rest) \<Longrightarrow> length rest < length t"
proof (induction t arbitrary: s rest rule: scanstring.induct)
  case 1
  then show ?case by simp
next
  case (2 c cs)
  show ?case
  proof (cases "c = CHR 0x22")
    case True
    with "2.prems" show ?thesis by simp
  next
    case quote: False
    show ?thesis
    proof (cases "c = CHR 0x5C")
      case False
      with quote "2.prems" obtain s' where "scanstring cs = Inr (s', rest)"
        by (auto split: if_splits dest: prepend_Inr)
      with False quote "2.IH"(3) show ?thesis
        using "2.prems" by (auto split: if_splits)
    next
      case True
      with quote "2.prems" obtain e cs' where cs: "cs = e # cs'"
        by (cases cs) auto
      show ?thesis
      proof (cases "e = CHR ''u''")
        case u: True
        with quote True cs "2.prems" obtain bs s' where
          "unicode_escape (take 4 cs') = Some bs" "scanstring (drop 4 cs') = Inr (s', rest)"
          by (auto split: option.splits dest: prepend_Inr)
        then have "length rest < length (drop 4 cs')"
          using "2.IH"(1) quote True cs u
          by (auto split: option.splits)
        then show ?thesis using cs by simp
      next
        case False
        with quote True cs "2.prems" obtain b s' where
          "simple_escape e = Some b" "scanstring cs' = Inr (s', rest)"
          by (auto split: option.splits dest: prepend_Inr)
        then have "length rest < length cs'"
          using "2.IH"(2) quote True cs False
          by (auto split: option.splits)
        then show ?thesis using cs by simp
      qed
    qed
  qed
qed

lemma scan_exponent_consumes: "scan_exponent t = Some (x, r) \<Longrightarrow> length r \<le> length t"
proof (cases t)
  case Nil
  then show "scan_exponent t = Some (x, r) \<Longrightarrow> length r \<le> length t"
    by (simp add: scan_exponent_def)
next
  case (Cons c cs)
  assume "scan_exponent t = Some (x, r)"
  with Cons have "r = dropWhile is_digit cs \<or> r = dropWhile is_digit (tl cs)"
    by (auto simp add: scan_exponent_def Let_def split: if_splits)
  moreover have "length (dropWhile is_digit cs) \<le> length cs"
    by (rule length_dropWhile_le)
  moreover have "length (dropWhile is_digit (tl cs)) \<le> length cs"
    using length_dropWhile_le [of is_digit "tl cs"] by simp
  ultimately show "length r \<le> length t"
    using Cons by auto
qed

lemma scan_number_consumes:
  assumes "scan_number t = Some (v, rest)"
  shows "length rest < length t"
proof -
  define t1 where "t1 = (if t \<noteq> [] \<and> hd t = CHR ''-'' then tl t else t)"
  define integer where "integer = (if hd t1 = CHR ''0'' then ''0'' else takeWhile is_digit t1)"
  define t2 where "t2 = drop (length integer) t1"
  define frac where
    "frac = (if t2 \<noteq> [] \<and> hd t2 = CHR ''.'' then takeWhile is_digit (tl t2) else [])"
  define t3 where "t3 = (if frac = [] then t2 else drop (Suc (length frac)) t2)"
  have digit: "t1 \<noteq> [] \<and> is_digit (hd t1)"
    using assms unfolding scan_number_def Let_def t1_def by (auto split: if_splits)
  then have "integer \<noteq> []"
    unfolding integer_def by (cases t1) auto
  then have "length t2 < length t1"
    using digit unfolding t2_def by (cases integer) auto
  moreover have "length t3 \<le> length t2"
    unfolding t3_def by simp
  moreover have "length t1 \<le> length t"
    unfolding t1_def by simp
  moreover have "rest = t3 \<or> (\<exists>x. scan_exponent t3 = Some (x, rest))"
    using assms digit
    unfolding scan_number_def Let_def t1_def [symmetric] integer_def [symmetric]
      t2_def [symmetric] frac_def [symmetric] t3_def [symmetric]
    by (auto split: if_splits option.splits)
  ultimately show ?thesis
    using scan_exponent_consumes by fastforce
qed


lemma scanstring_error:
  "scanstring t = Inl e \<Longrightarrow> e \<noteq> ''maximum recursion depth exceeded''"
proof (induction t rule: scanstring.induct)
  case 1
  then show ?case by auto
next
  case (2 c cs)
  then show ?case
    by (auto simp add: prepend_def split: if_splits list.splits option.splits sum.splits)
qed

lemma within_fuel_Inl:
  "e \<noteq> ''maximum recursion depth exceeded'' \<Longrightarrow> within_fuel (Inl e) t"
  by (simp add: within_fuel_def)

lemma within_fuel_Inr:
  "length r < length t \<Longrightarrow> within_fuel (Inr (v, r)) t"
  by (simp add: within_fuel_def)

lemma within_fuel_longer:
  "within_fuel res t \<Longrightarrow> length t \<le> length t' \<Longrightarrow> within_fuel res t'"
  by (auto simp add: within_fuel_def)

lemma within_fuel_if:
  "within_fuel a t \<Longrightarrow> within_fuel b t \<Longrightarrow> within_fuel (if p then a else b) t"
  by simp

lemma scan_once_step:
  assumes arr: "\<And>vs t. 2 * length t + 1 < n \<Longrightarrow> within_fuel (parse_array n vs t) t"
    and obj: "\<And>kvs t. 2 * length t + 1 < n \<Longrightarrow> within_fuel (parse_object n kvs t) t"
    and fuel: "2 * length t < Suc n"
  shows "within_fuel (scan_once (Suc n) t) t"
proof (cases t)
  case Nil
  then show ?thesis by (simp add: within_fuel_def)
next
  case (Cons c cs)
  have ws: "length (skip_ws cs) \<le> length cs"
    by (rule length_skip_ws)
  have enough: "2 * length (skip_ws cs) + 1 < n"
    using fuel Cons ws by simp
  consider (str) "c = CHR 0x22"
    | (obj) "c \<noteq> CHR 0x22" "c = CHR ''{''"
    | (arr) "c \<noteq> CHR 0x22" "c \<noteq> CHR ''{''" "c = CHR ''[''"
    | (other) "c \<noteq> CHR 0x22" "c \<noteq> CHR ''{''" "c \<noteq> CHR ''[''"
    by blast
  then show ?thesis
  proof cases
    case str
    show ?thesis
    proof (cases "scanstring cs")
      case (Inl e)
      then show ?thesis using str Cons scanstring_error [OF Inl]
        by (simp add: within_fuel_def)
    next
      case (Inr p)
      then obtain s rest where "scanstring cs = Inr (s, rest)" by (cases p) simp
      then show ?thesis using str Cons scanstring_consumes [of cs s rest]
        by (simp add: within_fuel_def)
    qed
  next
    case obj
    show ?thesis
    proof (cases "skip_ws cs \<noteq> [] \<and> hd (skip_ws cs) = CHR ''}''")
      case True
      then show ?thesis using obj Cons ws
        by (cases "skip_ws cs") (auto simp add: within_fuel_def)
    next
      case False
      have "within_fuel (parse_object n [] (skip_ws cs)) (skip_ws cs)"
        using enough by (rule assms(2))
      then have "within_fuel (parse_object n [] (skip_ws cs)) t"
        using ws Cons by (auto intro: within_fuel_longer)
      then show ?thesis using obj Cons False by auto
    qed
  next
    case arr
    show ?thesis
    proof (cases "skip_ws cs \<noteq> [] \<and> hd (skip_ws cs) = CHR '']''")
      case True
      then show ?thesis using arr Cons ws
        by (cases "skip_ws cs") (auto simp add: within_fuel_def)
    next
      case False
      have "within_fuel (parse_array n [] (skip_ws cs)) (skip_ws cs)"
        using enough by (rule assms(1))
      then have "within_fuel (parse_array n [] (skip_ws cs)) t"
        using ws Cons by (auto intro: within_fuel_longer)
      then show ?thesis using arr Cons False by auto
    qed
  next
    case other
    define lits where "lits =
      (if prefix ''null'' t then Inr (PyNone, drop 4 t)
       else if prefix ''true'' t then Inr (PyBool True, drop 4 t)
       else if prefix ''false'' t then Inr (PyBool False, drop 5 t)
       else if prefix ''NaN'' t then Inr (PyFloat NaN, drop 3 t)
       else if prefix ''Infinity'' t then Inr (PyFloat PosInf, drop 8 t)
       else if prefix ''-Infinity'' t then Inr (PyFloat NegInf, drop 9 t)
       else (case scan_number t of None \<Rightarrow> Inl ''Expecting value'' | Some r \<Rightarrow> Inr r))"
    have eq: "scan_once (Suc n) t = lits"
      unfolding lits_def Cons using other by simp
    have num: "within_fuel (case scan_number t of None \<Rightarrow> Inl ''Expecting value''
                              | Some r \<Rightarrow> Inr r) t"
      using scan_number_consumes [of t]
      by (auto simp add: within_fuel_def split: option.splits)
    have lit: "within_fuel (Inr (v, drop 3 t)) t" "within_fuel (Inr (v, drop 4 t)) t"
      "within_fuel (Inr (v, drop 5 t)) t" "within_fuel (Inr (v, drop 8 t)) t"
      "within_fuel (Inr (v, drop 9 t)) t" for v
      using Cons by (simp_all add: within_fuel_def)
    have "within_fuel lits t"
      unfolding lits_def by (intro within_fuel_if lit num)
    then show ?thesis using eq by simp
  qed
qed

lemma delimiter_message:
  "''Expecting '' @ quoted d @ '' delimiter'' \<noteq> ''maximum recursion depth exceeded''"
  by (simp add: quoted_def)

lemma parse_array_step:
  assumes so: "\<And>t. 2 * length t < n \<Longrightarrow> within_fuel (scan_once n t) t"
    and arr: "\<And>vs t. 2 * length t + 1 < n \<Longrightarrow> within_fuel (parse_array n vs t) t"
    and fuel: "2 * length t + 1 < Suc n"
  shows "within_fuel (parse_array (Suc n) vs t) t"
proof (cases "scan_once n t")
  case (Inl e)
  have "within_fuel (scan_once n t) t"
    using fuel by (intro so) simp
  then show ?thesis using Inl by (simp add: within_fuel_def)
next
  case (Inr p)
  obtain v rest where p: "p = (v, rest)" by (cases p)
  have "within_fuel (scan_once n t) t"
    using fuel by (intro so) simp
  then have rest: "length rest < length t"
    using Inr p by (simp add: within_fuel_def)
  have ws: "length (skip_ws rest) \<le> length rest"
    by (rule length_skip_ws)
  show ?thesis
  proof (cases "skip_ws rest")
    case Nil
    then show ?thesis using Inr p delimiter_message
      by (simp add: within_fuel_def)
  next
    case (Cons c cs)
    have ws': "length (skip_ws cs) \<le> length cs"
      by (rule length_skip_ws)
    consider (close) "c = CHR '']''" | (comma) "c \<noteq> CHR '']''" "c = CHR '',''"
      | (other) "c \<noteq> CHR '']''" "c \<noteq> CHR '',''"
      by blast
    then show ?thesis
    proof cases
      case close
      then show ?thesis using Inr p Cons ws rest
        by (simp add: within_fuel_def)
    next
      case comma
      have "2 * length (skip_ws cs) + 1 < n"
        using fuel rest ws ws' Cons by simp
      then have "within_fuel (parse_array n (vs @ [v]) (skip_ws cs)) (skip_ws cs)"
        by (rule arr)
      then have "within_fuel (parse_array n (vs @ [v]) (skip_ws cs)) t"
        using rest ws ws' Cons by (auto intro: within_fuel_longer)
      then show ?thesis using Inr p Cons comma by simp
    next
      case other
      then show ?thesis using Inr p Cons delimiter_message
        by (simp add: within_fuel_def)
    qed
  qed
qed

lemma parse_object_step:
  assumes so: "\<And>t. 2 * length t < n \<Longrightarrow> within_fuel (scan_once n t) t"
    and obj: "\<And>kvs t. 2 * length t + 1 < n \<Longrightarrow> within_fuel (parse_object n kvs t) t"
    and fuel: "2 * length t + 1 < Suc n"
  shows "within_fuel (parse_object (Suc n) kvs t) t"
proof (cases t)
  case Nil
  then show ?thesis by (simp add: within_fuel_def)
next
  case t: (Cons q t1)
  show ?thesis
  proof (cases "q = CHR 0x22")
    case False
    then show ?thesis using t by (simp add: within_fuel_def)
  next
    case quote: True
    show ?thesis
    proof (cases "scanstring t1")
      case (Inl e)
      then show ?thesis using t quote scanstring_error [OF Inl]
        by (simp add: within_fuel_def)
    next
      case (Inr p)
      obtain key t2 where p: "p = (key, t2)" by (cases p)
      have t2: "length t2 < length t1"
        using Inr p by (simp add: scanstring_consumes)
      have ws2: "length (skip_ws t2) \<le> length t2"
        by (rule length_skip_ws)
      show ?thesis
      proof (cases "skip_ws t2 = [] \<or> hd (skip_ws t2) \<noteq> CHR '':''")
        case True
        then show ?thesis using t quote Inr p delimiter_message
          by (auto simp add: within_fuel_def)
      next
        case colon: False
        let ?t3 = "skip_ws (tl (skip_ws t2))"
        have t3: "length ?t3 < length t1"
          using length_skip_ws [of "tl (skip_ws t2)"] ws2 t2 by simp
        have s: "within_fuel (scan_once n ?t3) ?t3"
          using fuel t t3 by (intro so) simp
        show ?thesis
        proof (cases "scan_once n ?t3")
          case (Inl e)
          then show ?thesis using t quote Inr p colon s
            by (simp add: within_fuel_def)
        next
          case val: (Inr pv)
          obtain v rest where pv: "pv = (v, rest)" by (cases pv)
          have rest: "length rest < length ?t3"
            using s val pv by (simp add: within_fuel_def)
          have ws: "length (skip_ws rest) \<le> length rest"
            by (rule length_skip_ws)
          show ?thesis
          proof (cases "skip_ws rest")
            case Nil
            then show ?thesis using t quote Inr p colon val pv delimiter_message
              by (simp add: within_fuel_def)
          next
            case (Cons c cs)
            have ws': "length (skip_ws cs) \<le> length cs"
              by (rule length_skip_ws)
            consider (close) "c = CHR ''}''" | (comma) "c \<noteq> CHR ''}''" "c = CHR '',''"
              | (other) "c \<noteq> CHR ''}''" "c \<noteq> CHR '',''"
              by blast
            then show ?thesis
            proof cases
              case close
              then show ?thesis using t quote Inr p colon val pv Cons ws rest t3
                by (simp add: within_fuel_def)
            next
              case comma
              have "2 * length (skip_ws cs) + 1 < n"
                using fuel rest ws ws' Cons t3 t by simp
              then have "within_fuel (parse_object n (dict_set key v kvs) (skip_ws cs))
                           (skip_ws cs)"
                by (rule obj)
              then have "within_fuel (parse_object n (dict_set key v kvs) (skip_ws cs)) t"
                using rest ws ws' Cons t3 t by (auto intro: within_fuel_longer)
              then show ?thesis using t quote Inr p colon val pv Cons comma by simp
            next
              case other
              then show ?thesis using t quote Inr p colon val pv Cons delimiter_message
                by (simp add: within_fuel_def)
            qed
          qed
        qed
      qed
    qed
  qed
qed

lemma scanner_within_fuel:
  "(2 * length t < n \<longrightarrow> within_fuel (scan_once n t) t)
   \<and> (2 * length t + 1 < n \<longrightarrow> within_fuel (parse_array n vs t) t)
   \<and> (2 * length t + 1 < n \<longrightarrow> within_fuel (parse_object n kvs t) t)"
proof (induction n arbitrary: t vs kvs)
  case 0
  then show ?case by simp
next
  case (Suc n)
  have so: "2 * length t < n \<Longrightarrow> within_fuel (scan_once n t) t" for t
    using Suc by blast
  have arr: "2 * length t + 1 < n \<Longrightarrow> within_fuel (parse_array n vs t) t" for vs t
    using Suc by blast
  have obj: "2 * length t + 1 < n \<Longrightarrow> within_fuel (parse_object n kvs t) t" for kvs t
    using Suc by blast
  show ?case
    using scan_once_step [OF arr obj] parse_array_step [OF so arr]
      parse_object_step [OF so obj]
    by blast
qed

lemma json_loads_fuel: "json_loads s \<noteq> Inl ''maximum recursion depth exceeded''"
proof -
  have "2 * length (skip_ws s) < Suc (2 * length s)"
    using length_skip_ws [of s] by simp
  then have "within_fuel (scan_once (Suc (2 * length s)) (skip_ws s)) (skip_ws s)"
    using scanner_within_fuel by blast
  then show ?thesis
    by (auto simp add: json_loads_def within_fuel_def simp del: scan_once.simps
             split: sum.splits)
qed

section \<open>The claims about the parser\<close>

text \<open>
  C2. The claim: for every raw text and any knowledge and skill, the parser never raises
  and returns a record with all 16 keys. The parser guards the decoding, but not what it
  does with the decoded value: the text \<open>[]\<close> is valid JSON, decodes to a list, and
  the first \<open>data.get\<close> raises \<open>AttributeError\<close>.
\<close>

theorem parser_raises_on_decoded_list:
  \<open>parse_ai_response json_loads ''[]'' (PyStr ''k'') (PyStr ''s'')
     = Inl (AttributeError (quoted ''list'' @ '' object has no attribute '' @ quoted ''get''))\<close>
  by code_simp

text \<open>
  C3, as the code has it. For each of the 14 keys the parser takes the value that the
  decoded object holds under the key, whatever its type, and the placeholder when the
  key is missing; a missing key raises nothing.
\<close>

theorem parser_field_present_or_placeholder:
  assumes "decoder (strip_code_fence text) = Inr (PyDict kvs)" and "k \<in> set ai_fields"
  shows "\<exists>r. parse_ai_response decoder text knowledge skill = Inr r
           \<and> field r k = Some (case map_of kvs k of None \<Rightarrow> ai_error | Some v \<Rightarrow> v)"
proof -
  have "parse_ai_response decoder text knowledge skill
          = Inr (parsed_record kvs knowledge skill)"
    using assms(1) by (rule parse_dict)
  moreover have "field (parsed_record kvs knowledge skill) k = Some (get_or ai_error kvs k)"
    using assms(2) by (rule field_parsed_record)
  ultimately show ?thesis by (simp add: get_or_def)
qed

theorem parser_field_present_or_placeholder_witness:
  \<open>\<exists>r. parse_ai_response json_loads ''{"rvw": 5}'' (PyStr ''k'') (PyStr ''s'') = Inr r
        \<and> field r ''rvw'' = Some (PyInt 5)
        \<and> field r ''pua'' = Some ai_error\<close>
proof -
  have d: \<open>json_loads (strip_code_fence ''{"rvw": 5}'') = Inr (PyDict [(''rvw'', PyInt 5)])\<close>
    by code_simp
  have "''rvw'' \<in> set ai_fields" and "''pua'' \<in> set ai_fields"
    by (simp_all add: ai_fields_def)
  then show ?thesis
    using
      parser_field_present_or_placeholder
        [where decoder = json_loads and k = "''rvw''" and knowledge = "PyStr ''k''"
           and skill = "PyStr ''s''", OF d]
      parser_field_present_or_placeholder
        [where decoder = json_loads and k = "''pua''" and knowledge = "PyStr ''k''"
           and skill = "PyStr ''s''", OF d]
    by auto
qed

text \<open>
  C3, as the claim states it, fails: the object \<open>{"rvw": 5}\<close> holds a number under
  \<open>rvw\<close>, not a string, and the record carries the number, not the placeholder.
\<close>

theorem parser_keeps_non_string_value:
  \<open>map_option (\<lambda>r. field r ''rvw'')
       (case parse_ai_response json_loads ''{"rvw": 5}'' (PyStr ''k'') (PyStr ''s'') of
          Inl e \<Rightarrow> None | Inr r \<Rightarrow> Some r)
     = Some (Some (PyInt 5))
   \<and> PyInt 5 \<noteq> ai_error\<close>
  by code_simp





section \<open>The claim about the prompt builder\<close>

text \<open>
  C9. The prompt is a function of its three inputs: equal inputs give the same bytes, and
  for strings nothing else enters it. The text carries the three strings unchanged, the
  topic after \<open>Topic: "\<close>, the knowledge after \<open>Knowledge (PoC): "\<close> and the skill
  after \<open>Skill (PoC): "\<close>, each closed by a double quote.
\<close>

theorem prompt_is_determined_and_embeds_inputs:
  \<open>(topic = topic' \<longrightarrow> knowledge = knowledge' \<longrightarrow> skill = skill' \<longrightarrow>
      create_lesson_prompt f (PyStr topic) (PyStr knowledge) (PyStr skill)
        = create_lesson_prompt g (PyStr topic') (PyStr knowledge') (PyStr skill'))
   \<and> create_lesson_prompt f (PyStr topic) (PyStr knowledge) (PyStr skill)
        = prompt_intro @ topic @ prompt_after_topic @ knowledge @ prompt_after_knowledge
            @ skill @ prompt_schema
   \<and> suffix ''Topic: "'' prompt_intro
   \<and> prefix ''"'' prompt_after_topic \<and> suffix ''Knowledge (PoC): "'' prompt_after_topic
   \<and> prefix ''"'' prompt_after_knowledge \<and> suffix ''Skill (PoC): "'' prompt_after_knowledge
   \<and> prefix ''"'' prompt_schema\<close>
proof -
  have "create_lesson_prompt f (PyStr topic) (PyStr knowledge) (PyStr skill)
          = create_lesson_prompt g (PyStr topic) (PyStr knowledge) (PyStr skill)"
    by (simp add: create_lesson_prompt_def format_field_def)
  moreover have "create_lesson_prompt f (PyStr topic) (PyStr knowledge) (PyStr skill)
        = prompt_intro @ topic @ prompt_after_topic @ knowledge @ prompt_after_knowledge
            @ skill @ prompt_schema"
    by (simp add: create_lesson_prompt_def format_field_def)
  moreover have \<open>suffix ''Topic: "'' prompt_intro\<close>
    by (simp add: prompt_intro_def suffix_def)
  moreover have \<open>prefix ''"'' prompt_after_topic\<close>
    and \<open>suffix ''Knowledge (PoC): "'' prompt_after_topic\<close>
    by (simp_all add: prompt_after_topic_def suffix_def)
  moreover have \<open>prefix ''"'' prompt_after_knowledge\<close>
    and \<open>suffix ''Skill (PoC): "'' prompt_after_knowledge\<close>
    by (simp_all add: prompt_after_knowledge_def suffix_def)
  moreover have \<open>prefix ''"'' prompt_schema\<close>
    by (simp add: prompt_schema_def)
  ultimately show ?thesis by blast
qed

theorem prompt_is_determined_and_embeds_inputs_witness:
  \<open>create_lesson_prompt (\<lambda>v. []) (PyStr ''Knife skills'') (PyStr ''Names of the cuts'')
       (PyStr ''Cuts a carrot'')
     = create_lesson_prompt type_name (PyStr ''Knife skills'') (PyStr ''Names of the cuts'')
         (PyStr ''Cuts a carrot'')
   \<and> create_lesson_prompt (\<lambda>v. []) (PyStr ''Knife skills'') (PyStr ''Names of the cuts'')
       (PyStr ''Cuts a carrot'')
     = prompt_intro @ ''Knife skills'' @ prompt_after_topic @ ''Names of the cuts''
         @ prompt_after_knowledge @ ''Cuts a carrot'' @ prompt_schema\<close>
  using prompt_is_determined_and_embeds_inputs
    [where topic = "''Knife skills''" and topic' = "''Knife skills''"
       and knowledge = "''Names of the cuts''" and knowledge' = "''Names of the cuts''"
       and skill = "''Cuts a carrot''" and skill' = "''Cuts a carrot''"
       and f = "\<lambda>v. []" and g = type_name]
  by blast

section \<open>The claims about the orchestrator\<close>





text \<open>
  C5. When topic, knowledge or skill of an entry is absent or empty, the round appends the
  blank record: the 16 keys, the empty string (not the placeholder) under each of the 14
  fields, and under knowledge and skill what the entry holds there. The list of prompts
  sent is unchanged, so the service is not called, and the loop goes on to the next entry.
\<close>

theorem blank_entry_gives_blank_record_without_call:
  assumes "absent_or_empty kvs ''topic'' \<or> absent_or_empty kvs ''knowledge''
             \<or> absent_or_empty kvs ''skill''"
  shows "\<exists>r. process_day env sent (PyDict kvs) = (Inr r, sent)
           \<and> r = create_empty_content (get_or PyNone kvs ''knowledge'')
                                       (get_or PyNone kvs ''skill'')
           \<and> keys_of r = record_keys
           \<and> (\<forall>k \<in> set ai_fields. field r k = Some (PyStr []))
           \<and> field r ''knowledge'' = Some (get_or PyNone kvs ''knowledge'')
           \<and> field r ''skill'' = Some (get_or PyNone kvs ''skill'')
           \<and> PyStr [] \<noteq> ai_error
           \<and> for_days env sent acc (PyDict kvs # rest) = for_days env sent (acc @ [r]) rest"
proof -
  let ?r = "create_empty_content (get_or PyNone kvs ''knowledge'') (get_or PyNone kvs ''skill'')"
  have "\<not> truthy (get_or PyNone kvs ''topic'') \<or> \<not> truthy (get_or PyNone kvs ''knowledge'')
          \<or> \<not> truthy (get_or PyNone kvs ''skill'')"
    using assms absent_or_empty_not_truthy by blast
  then have step: "process_day env sent (PyDict kvs) = (Inr ?r, sent)"
    by (rule process_day_blank)
  then have "for_days env sent acc (PyDict kvs # rest) = for_days env sent (acc @ [?r]) rest"
    by simp
  moreover have "keys_of ?r = record_keys"
    by (rule keys_create_empty_content)
  moreover have "\<forall>k \<in> set ai_fields. field ?r k = Some (PyStr [])"
    by (simp add: field_create_empty_content)
  moreover have "field ?r ''knowledge'' = Some (get_or PyNone kvs ''knowledge'')"
    and "field ?r ''skill'' = Some (get_or PyNone kvs ''skill'')"
    by (rule field_create_empty_content_passthrough)+
  moreover have "PyStr [] \<noteq> ai_error"
    by (simp add: ai_error_def)
  ultimately show ?thesis using step by blast
qed

theorem blank_entry_gives_blank_record_without_call_witness:
  \<open>absent_or_empty [(''topic'', PyStr ''Knife skills''), (''knowledge'', PyStr ''Cuts''),
                     (''skill'', PyStr '''')] ''skill''
   \<and> process_day sample_env [''earlier'']
        (PyDict [(''topic'', PyStr ''Knife skills''), (''knowledge'', PyStr ''Cuts''),
                 (''skill'', PyStr '''')])
     = (Inr (create_empty_content (PyStr ''Cuts'') (PyStr '''')), [''earlier''])
   \<and> field (create_empty_content (PyStr ''Cuts'') (PyStr '''')) ''rvw'' = Some (PyStr '''')
   \<and> field (create_empty_content (PyStr ''Cuts'') (PyStr '''')) ''knowledge''
       = Some (PyStr ''Cuts'')\<close>
proof -
  let ?kvs = "[(''topic'', PyStr ''Knife skills''), (''knowledge'', PyStr ''Cuts''),
               (''skill'', PyStr '''')]"
  have h: "absent_or_empty ?kvs ''skill''"
    by (simp add: absent_or_empty_def)
  then have h': "absent_or_empty ?kvs ''topic'' \<or> absent_or_empty ?kvs ''knowledge''
                   \<or> absent_or_empty ?kvs ''skill''"
    by blast
  have k: "get_or PyNone ?kvs ''knowledge'' = PyStr ''Cuts''"
    and s: "get_or PyNone ?kvs ''skill'' = PyStr ''''"
    by (simp_all add: get_or_def)
  have m: "''rvw'' \<in> set ai_fields"
    by (simp add: ai_fields_def)
  show ?thesis
    using h m blank_entry_gives_blank_record_without_call
            [OF h', of sample_env "[''earlier'']" "[]" "[]"]
    unfolding k s by auto
qed

text \<open>
  C10. \<open>day.get\<close> gives \<open>None\<close> for a key that the entry does not have, and the blank
  record is built from what it gives: an entry without the key \<open>knowledge\<close> (or
  \<open>skill\<close>) gets a record that holds \<open>None\<close>, which is no string, under that key.
\<close>

theorem blank_record_passes_none_through:
  "(map_of kvs ''knowledge'' = None \<longrightarrow>
      (\<exists>r. process_day env sent (PyDict kvs) = (Inr r, sent)
            \<and> field r ''knowledge'' = Some PyNone))
   \<and> (map_of kvs ''skill'' = None \<longrightarrow>
      (\<exists>r. process_day env sent (PyDict kvs) = (Inr r, sent)
            \<and> field r ''skill'' = Some PyNone))
   \<and> PyNone \<noteq> PyStr s"
proof -
  have "\<exists>r. process_day env sent (PyDict kvs) = (Inr r, sent) \<and> field r ''knowledge'' = Some PyNone"
    if "map_of kvs ''knowledge'' = None"
  proof -
    from that have g: "get_or PyNone kvs ''knowledge'' = PyNone"
      by (simp add: get_or_def)
    then have "\<not> truthy (get_or PyNone kvs ''topic'') \<or> \<not> truthy (get_or PyNone kvs ''knowledge'')
                 \<or> \<not> truthy (get_or PyNone kvs ''skill'')"
      by simp
    then show ?thesis
      using process_day_blank [of kvs env sent] g
      by (simp add: field_create_empty_content_passthrough)
  qed
  moreover have "\<exists>r. process_day env sent (PyDict kvs) = (Inr r, sent) \<and> field r ''skill'' = Some PyNone"
    if "map_of kvs ''skill'' = None"
  proof -
    from that have g: "get_or PyNone kvs ''skill'' = PyNone"
      by (simp add: get_or_def)
    then have "\<not> truthy (get_or PyNone kvs ''topic'') \<or> \<not> truthy (get_or PyNone kvs ''knowledge'')
                 \<or> \<not> truthy (get_or PyNone kvs ''skill'')"
      by simp
    then show ?thesis
      using process_day_blank [of kvs env sent] g
      by (simp add: field_create_empty_content_passthrough)
  qed
  ultimately show ?thesis by simp
qed

theorem blank_record_passes_none_through_witness:
  \<open>map_of [(''topic'', PyStr ''Knife skills'')] ''knowledge'' = None
   \<and> map_of [(''topic'', PyStr ''Knife skills'')] ''skill'' = None
   \<and> (\<exists>r. process_day sample_env [] (PyDict [(''topic'', PyStr ''Knife skills'')]) = (Inr r, [])
          \<and> field r ''knowledge'' = Some PyNone \<and> field r ''skill'' = Some PyNone)
   \<and> PyNone \<noteq> PyStr ''''\<close>
proof -
  let ?kvs = "[(''topic'', PyStr ''Knife skills'')]"
  have h1: "map_of ?kvs ''knowledge'' = None" and h2: "map_of ?kvs ''skill'' = None"
    by simp_all
  note t = blank_record_passes_none_through
    [where kvs = ?kvs and env = sample_env and sent = "[]" and s = "''''"]
  from t [THEN conjunct1, rule_format, OF h1]
       t [THEN conjunct2, THEN conjunct1, rule_format, OF h2]
  have "\<exists>r. process_day sample_env [] (PyDict ?kvs) = (Inr r, [])
          \<and> field r ''knowledge'' = Some PyNone \<and> field r ''skill'' = Some PyNone"
    by auto
  with h1 h2 show ?thesis by simp
qed



end
